theory Spec2Isabelle
  imports Main "HOL-Library.Sublist"
begin

section \<open>The statement builder of sql-strings (function \<open>SQL\<close> and its closure \<open>append\<close>)\<close>

subsection \<open>JavaScript built-ins the builder calls\<close>

text \<open>
  The only exception the builder can raise on well-typed arguments is the \<open>TypeError\<close> of
  \<open>Array.prototype.reduce\<close> ("Reduce of empty array with no initial value"); calling
  something that is not a function raises a \<open>TypeError\<close> too.
\<close>

datatype error = TypeError

text \<open>
  \<open>'$' + (append.values.length + i)\<close> converts a non-negative integer to a string:
  its decimal digits, most significant first, without leading zeros
  (\<open>Number::toString\<close> on an integer below \<open>10^21\<close>).
\<close>

definition digit_char :: "nat \<Rightarrow> char" where
  "digit_char d = char_of (48 + d)"

fun number_to_string :: "nat \<Rightarrow> string" where
  "number_to_string n =
     (if n < 10 then [digit_char n]
      else number_to_string (n div 10) @ [digit_char (n mod 10)])"

declare number_to_string.simps [simp del]

text \<open>
  \<open>Array.prototype.reduce(callback)\<close> with no initial value: the accumulator starts as
  element 0, the callback is called for the elements from index 1 on with
  \<open>(accumulator, element, index)\<close>, and an empty array raises \<open>TypeError\<close>.
\<close>

fun reduce_from :: "('a \<Rightarrow> 'a \<Rightarrow> nat \<Rightarrow> 'a) \<Rightarrow> 'a \<Rightarrow> 'a list \<Rightarrow> nat \<Rightarrow> 'a" where
  "reduce_from f acc [] i = acc"
| "reduce_from f acc (part # rest) i = reduce_from f (f acc part i) rest (Suc i)"

fun reduce :: "('a \<Rightarrow> 'a \<Rightarrow> nat \<Rightarrow> 'a) \<Rightarrow> 'a list \<Rightarrow> error + 'a" where
  "reduce f [] = Inl TypeError"
| "reduce f (first # rest) = Inr (reduce_from f first rest 1)"

text \<open>
  \<open>Array.prototype.join(separator)\<close> on an array of strings: the elements with the
  separator between neighbours; the empty array gives the empty string.
\<close>

fun join :: "string list \<Rightarrow> string \<Rightarrow> string" where
  "join [] sep = []"
| "join [part] sep = part"
| "join (part # rest) sep = part @ sep @ join rest sep"

subsection \<open>The function object \<open>append\<close> and its properties\<close>

text \<open>
  \<open>append.text\<close>, \<open>append.sql\<close> and \<open>append.values\<close> are properties of the function
  object that \<open>SQL\<close> returns. Bound values are arbitrary JavaScript values: the type
  \<open>'v\<close>.
\<close>

record 'v sqlstring =
  "text" :: string
  sql :: string
  "values" :: "'v list"

text \<open>
  The first argument of \<open>append\<close>, as its JSDoc types it (\<open>string[] | string\<close>), together
  with the two values the function tests for first: \<open>undefined\<close> (no argument) and the
  symbol \<open>SEQUELIZE_USE_BIND\<close>.
\<close>

datatype template =
    Undefined
  | SEQUELIZE_USE_BIND
  | Str string
  | Parts "string list"

text \<open>
  What a call returns: \<open>append\<close> itself (the function object that was called), the
  object \<open>{ sql, text, query, values }\<close> or the object \<open>{ query, bind }\<close>.
\<close>

datatype 'v returned =
    Handle
  | Standard (sql_field: string) (text_field: string) (query_field: string)
      (values_field: "'v list")
  | Bind (bind_query_field: string) (bind_field: "'v list")

text \<open>
  The part of \<open>append\<close> after the finalisation test and after a string has been wrapped
  into a one-element array: the three updates, in the source's order.
\<close>

definition append_parts ::
  "string list \<Rightarrow> 'v list \<Rightarrow> 'v sqlstring \<Rightarrow> error + ('v returned \<times> 'v sqlstring)" where
  "append_parts parts vals self =
     (case reduce (\<lambda>acc part i.
               acc @ ''$'' @ number_to_string (length (values self) + i) @ part) parts of
        Inl e \<Rightarrow> Inl e
      | Inr added \<Rightarrow>
          let self1 = self\<lparr>text := text self @ added\<rparr>;
              self2 = self1\<lparr>sql := sql self1 @ join parts ''?''\<rparr>;
              self3 = self2\<lparr>values := values self2 @ vals\<rparr>
          in Inr (Handle, self3))"

fun append_fn ::
  "template \<Rightarrow> 'v list \<Rightarrow> 'v sqlstring \<Rightarrow> error + ('v returned \<times> 'v sqlstring)" where
  "append_fn Undefined vals self =
     Inr (Standard (sql self) (text self) (sql self) (values self), self)"
| "append_fn SEQUELIZE_USE_BIND vals self =
     Inr (Bind (text self) (values self), self)"
| "append_fn (Str s) vals self = append_parts [s] vals self"
| "append_fn (Parts parts) vals self = append_parts parts vals self"

text \<open>
  The properties as \<open>SQL\<close> sets them before its first call of \<open>append\<close>:
  \<open>append.text = append.sql = ''; append.values = []\<close>.
\<close>

definition initial :: "'v sqlstring" where
  "initial = \<lparr>text = [], sql = [], values = []\<rparr>"

subsection \<open>Handles: the function objects in a store\<close>

text \<open>
  Every call of \<open>SQL\<close> creates a new function object \<open>append\<close> and returns a reference
  to it. Besides the three data properties the object has the property \<open>append\<close>, which
  \<open>SQL\<close> sets to the object itself (\<open>append.append = append\<close>). The store is the list of
  the function objects created so far; a reference is an index into it.
\<close>

type_synonym ref = nat

record 'v function_object =
  props :: "'v sqlstring"
  append_prop :: ref

type_synonym 'v store = "'v function_object list"

definition lookup :: "'v store \<Rightarrow> ref \<Rightarrow> 'v function_object option" where
  "lookup st r = (if r < length st then Some (st ! r) else None)"

text \<open>
  A JavaScript value a call can return: a reference to a function object, or one of the
  two plain objects. \<open>return append\<close> inside the closure returns the reference to the
  function object that is executing.
\<close>

datatype 'v jsvalue = Function ref | Object "'v returned"

fun as_value :: "ref \<Rightarrow> 'v returned \<Rightarrow> 'v jsvalue" where
  "as_value r Handle = Function r"
| "as_value r obj = Object obj"

text \<open>\<open>h(template, ...values)\<close>: the body of \<open>append\<close> runs on the properties of \<open>h\<close>.\<close>

definition call ::
  "ref \<Rightarrow> template \<Rightarrow> 'v list \<Rightarrow> 'v store \<Rightarrow> error + ('v jsvalue \<times> 'v store)" where
  "call r template vals st =
     (case lookup st r of
        None \<Rightarrow> Inl TypeError
      | Some f \<Rightarrow>
          (case append_fn template vals (props f) of
             Inl e \<Rightarrow> Inl e
           | Inr (res, self') \<Rightarrow> Inr (as_value r res, st[r := f\<lparr>props := self'\<rparr>])))"

text \<open>\<open>h.append(template, ...values)\<close>: the property \<open>append\<close> of \<open>h\<close> is read and called.\<close>

definition call_append ::
  "ref \<Rightarrow> template \<Rightarrow> 'v list \<Rightarrow> 'v store \<Rightarrow> error + ('v jsvalue \<times> 'v store)" where
  "call_append r template vals st =
     (case lookup st r of
        None \<Rightarrow> Inl TypeError
      | Some f \<Rightarrow> call (append_prop f) template vals st)"

text \<open>
  \<open>SQL(template, ...values)\<close>: create the function object, initialise its properties,
  call it once with the arguments (the value this call returns is dropped) and return the
  reference.
\<close>

definition SQL :: "template \<Rightarrow> 'v list \<Rightarrow> 'v store \<Rightarrow> error + (ref \<times> 'v store)" where
  "SQL template vals st =
     (let r = length st;
          st1 = st @ [\<lparr>props = initial, append_prop = r\<rparr>]
      in case call r template vals st1 of
           Inl e \<Rightarrow> Inl e
         | Inr (_, st2) \<Rightarrow> Inr (r, st2))"

subsection \<open>The generator \<open>append[Symbol.iterator]\<close>\<close>

text \<open>
  \<open>function* () { yield this.sql; yield* this.values; }\<close>. A generator object is at the
  start, inside the array at an index, or completed; \<open>resume\<close> is one call of its
  \<open>next()\<close>, which reads the properties of \<open>this\<close> and assigns nothing. An item is the
  string \<open>sql\<close> or a bound value.
\<close>

datatype position = Start | In_values nat | Completed

fun resume :: "position \<Rightarrow> 'v sqlstring \<Rightarrow> (string + 'v) option \<times> position" where
  "resume Start this = (Some (Inl (sql this)), In_values 0)"
| "resume (In_values i) this =
     (if i < length (values this) then (Some (Inr (values this ! i)), In_values (Suc i))
      else (None, Completed))"
| "resume Completed this = (None, Completed)"

text \<open>Spreading or destructuring calls \<open>next()\<close> until the generator is done.\<close>

function collect :: "position \<Rightarrow> 'v sqlstring \<Rightarrow> (string + 'v) list" where
  "collect pos this =
     (case resume pos this of
        (None, _) \<Rightarrow> []
      | (Some item, pos') \<Rightarrow> item # collect pos' this)"
  by pat_completeness auto
termination
  by (relation "measure (\<lambda>(pos, this). case pos of
                    Start \<Rightarrow> Suc (length (values this))
                  | In_values i \<Rightarrow> length (values this) - i
                  | Completed \<Rightarrow> 0)")
     (auto split: position.splits if_splits)

declare collect.simps [simp del]

text \<open>
  \<open>[...h]\<close>: a new generator is created from the handle and run to completion; the store
  is returned as it was, since no step of the generator assigns.
\<close>

definition spread :: "ref \<Rightarrow> 'v store \<Rightarrow> error + ((string + 'v) list \<times> 'v store)" where
  "spread r st =
     (case lookup st r of
        None \<Rightarrow> Inl TypeError
      | Some this \<Rightarrow> Inr (collect Start (props this), st))"

subsection \<open>The append contract in the words of the specification\<close>

text \<open>
  What the specification says one interleaved append adds to each rendering, written by
  fragment position: the fragment at position \<open>i\<close> followed by \<open>?\<close> (respectively by
  \<open>$\<close> and the number \<open>count + 1 + i\<close>, where \<open>count\<close> is the number of values before
  the call), and nothing after the final fragment.
\<close>

definition spec_sql_added :: "string list \<Rightarrow> string" where
  "spec_sql_added frags =
     concat (map (\<lambda>i. frags ! i @ (if Suc i = length frags then [] else ''?''))
                 [0..<length frags])"

definition spec_text_added :: "nat \<Rightarrow> string list \<Rightarrow> string" where
  "spec_text_added count frags =
     concat (map (\<lambda>i. frags ! i @
                    (if Suc i = length frags then []
                     else ''$'' @ number_to_string (count + 1 + i)))
                 [0..<length frags])"

text \<open>
  The text that the fold of \<open>reduce\<close> puts after the first fragment, by recursion on the
  fragments that follow it: each is preceded by its placeholder.
\<close>

fun numbered :: "nat \<Rightarrow> string list \<Rightarrow> string" where
  "numbered m [] = []"
| "numbered m (part # rest) = ''$'' @ number_to_string m @ part @ numbered (Suc m) rest"

subsection \<open>Sequences of appends\<close>

text \<open>
  The arguments of one interleaved append: the fragments and the values. It has the
  tagged-template form when there is one fragment more than there are values.
\<close>

type_synonym 'v batch = "string list \<times> 'v list"

definition interleaved :: "'v batch \<Rightarrow> bool" where
  "interleaved b = (length (fst b) = Suc (length (snd b)))"

text \<open>Successive append calls on one handle; an exception ends the sequence.\<close>

fun append_all :: "'v batch list \<Rightarrow> 'v sqlstring \<Rightarrow> error + 'v sqlstring" where
  "append_all [] self = Inr self"
| "append_all ((frags, vals) # later) self =
     (case append_fn (Parts frags) vals self of
        Inl e \<Rightarrow> Inl e
      | Inr (_, self') \<Rightarrow> append_all later self')"

text \<open>
  The net fragments of two successive batches: the last fragment of the first and the
  first fragment of the second are concatenated into one. \<open>combined\<close> is the single batch
  that carries the net fragments and values of a sequence of batches.
\<close>

fun glue :: "string list \<Rightarrow> string list \<Rightarrow> string list" where
  "glue [] gs = gs"
| "glue [f] [] = [f]"
| "glue [f] (g # gs) = (f @ g) # gs"
| "glue (f # f' # fs) gs = f # glue (f' # fs) gs"

fun combined :: "'v batch list \<Rightarrow> 'v batch" where
  "combined [] = ([], [])"
| "combined ((frags, vals) # later) =
     (glue frags (fst (combined later)), vals @ snd (combined later))"

subsection \<open>Reading the placeholders of a rendering\<close>






section \<open>Properties\<close>

subsection \<open>What one call of \<open>append\<close> adds\<close>

lemma reduce_single: "reduce f [s] = Inr s"
  by simp

text \<open>
  C9. A raw string passed together with further arguments raises nothing: the string goes
  into both renderings as it is, no placeholder is added, and the further arguments are
  nevertheless pushed onto \<open>values\<close>.
\<close>

theorem raw_string_with_values_lenient:
  "append_fn (Str s) vals self =
     Inr (Handle, self\<lparr>text := text self @ s, sql := sql self @ s,
                        values := values self @ vals\<rparr>)"
  by (simp add: append_parts_def)

lemma reduce_from_numbered:
  "reduce_from (\<lambda>acc part i. acc @ CHR ''$'' # number_to_string (c + i) @ part) acc rest k
     = acc @ numbered (c + k) rest"
  by (induction rest arbitrary: acc k) simp_all

lemma append_parts_Cons:
  "append_parts (f # fs) vals self =
     Inr (Handle, self\<lparr>text := text self @ f @ numbered (Suc (length (values self))) fs,
                        sql := sql self @ join (f # fs) ''?'',
                        values := values self @ vals\<rparr>)"
  by (simp add: append_parts_def reduce_from_numbered)

lemma upt_length_Cons: "[0..<length (x # xs)] = 0 # map Suc [0..<length xs]"
  by (simp add: upt_conv_Cons map_Suc_upt del: upt_Suc)

lemma spec_text_added_Cons: "spec_text_added c (f # fs) = f @ numbered (Suc c) fs"
proof (induction fs arbitrary: c f)
  case Nil
  show ?case by (simp add: spec_text_added_def)
next
  case (Cons g gs)
  have "spec_text_added c (f # g # gs) =
          f @ ''$'' @ number_to_string (Suc c) @ spec_text_added (Suc c) (g # gs)"
    unfolding spec_text_added_def
    by (simp only: upt_length_Cons [of f]) (simp add: comp_def cong: if_cong)
  then show ?case using Cons.IH [of "Suc c" g] by simp
qed

lemma spec_sql_added_eq_join: "spec_sql_added frags = join frags ''?''"
proof (induction frags "''?''" rule: join.induct)
  case 1
  show ?case by (simp add: spec_sql_added_def)
next
  case (2 part)
  show ?case by (simp add: spec_sql_added_def)
next
  case (3 part v va)
  have "spec_sql_added (part # v # va) = part @ ''?'' @ spec_sql_added (v # va)"
    unfolding spec_sql_added_def
    by (simp only: upt_length_Cons [of part]) (simp add: comp_def)
  then show ?case using 3 by simp
qed

text \<open>
  C1. An append with \<open>n\<close> fragments and \<open>n - 1\<close> values extends \<open>sql\<close> by every fragment
  followed by \<open>?\<close>, and \<open>text\<close> by every fragment followed by \<open>$\<close> and the number
  (values before the call + 1 + position of the fragment), in both cases with nothing
  after the final fragment, and pushes the values in order: the numbering goes on from
  the value count before the call.
\<close>

theorem append_interleaved:
  assumes "length frags = Suc (length vals)"
  shows "append_fn (Parts frags) vals self =
     Inr (Handle,
          self\<lparr>text := text self @ spec_text_added (length (values self)) frags,
               sql := sql self @ spec_sql_added frags,
               values := values self @ vals\<rparr>)"
proof -
  from assms obtain f fs where frags: "frags = f # fs"
    by (cases frags) auto
  show ?thesis
    unfolding frags
    by (simp add: append_parts_Cons spec_text_added_Cons spec_sql_added_eq_join)
qed

theorem append_interleaved_witness:
  "length ['' AND b = '', '' AND c = '', ''''] = Suc (length [2, 3 :: int]) \<and>
   append_fn (Parts ['' AND b = '', '' AND c = '', '''']) [2, 3 :: int]
       \<lparr>text = ''a = $1'', sql = ''a = ?'', values = [1]\<rparr> =
     Inr (Handle, \<lparr>text = ''a = $1 AND b = $2 AND c = $3'',
                   sql = ''a = ? AND b = ? AND c = ?'',
                   values = [1, 2, 3]\<rparr>)"
proof -
  have h: "length ['' AND b = '', '' AND c = '', ''''] = Suc (length [2, 3 :: int])"
    by simp
  have t: "spec_text_added (Suc 0) ['' AND b = '', '' AND c = '', ''''] =
             '' AND b = $2 AND c = $3''"
    by code_simp
  have q: "spec_sql_added ['' AND b = '', '' AND c = '', ''''] = '' AND b = ? AND c = ?''"
    by code_simp
  show ?thesis
    using append_interleaved [OF h, of "\<lparr>text = ''a = $1'', sql = ''a = ?'', values = [1]\<rparr>"]
    by (simp add: t q)
qed

text \<open>The construction scenario of the specification, evaluated on the code.\<close>

lemma scenario_construct_two_values:
  "append_fn (Parts [''SELECT * FROM users WHERE id = '', '' AND username = '', ''''])
       [Inl (1::int), Inr ''bob''] initial =
     Inr (Handle, \<lparr>text = ''SELECT * FROM users WHERE id = $1 AND username = $2'',
                   sql = ''SELECT * FROM users WHERE id = ? AND username = ?'',
                   values = [Inl 1, Inr ''bob'']\<rparr>)"
  by code_simp

text \<open>
  C3. A raw string with no further argument goes into \<open>sql\<close> and into \<open>text\<close> exactly as
  it is: nothing else is added to either rendering, and \<open>values\<close> stays as it was.
\<close>

theorem raw_string_append:
  "append_fn (Str s) [] self =
     Inr (Handle, self\<lparr>text := text self @ s, sql := sql self @ s\<rparr>) \<and>
   values (snd (projr (append_fn (Str s) [] self))) = values self"
  by (simp add: append_parts_def)

text \<open>
  C4, as the code has it. Called with no argument, the handle returns
  \<open>{ sql, text, query, values }\<close>: \<open>sql\<close> holds the \<open>?\<close>-style rendering and \<open>query\<close> is
  equal to it; \<open>text\<close> is not an alias of \<open>sql\<close> but holds the handle's own \<open>text\<close>
  property, the \<open>$n\<close>-style rendering; \<open>values\<close> holds the bound values in append order;
  the statement is left as it was, whatever further arguments are passed.
\<close>

theorem finalize_no_argument:
  "append_fn Undefined vals self =
     Inr (Standard (sql self) (text self) (sql self) (values self), self) \<and>
   query_field (fst (projr (append_fn Undefined vals self))) =
     sql_field (fst (projr (append_fn Undefined vals self))) \<and>
   text_field (fst (projr (append_fn Undefined vals self))) = text self"
  by simp

text \<open>
  C4 as it is written makes \<open>text\<close> an alias as \<open>query\<close> is, that is, equal to \<open>sql\<close>.
  On the code the two differ as soon as a value is bound: after the construction
  \<open>SQL`id = ${7}`\<close> the no-argument call returns \<open>sql\<close> and \<open>query\<close> as \<open>id = ?\<close> but
  \<open>text\<close> as \<open>id = $1\<close>.
\<close>

theorem finalize_no_argument_counterexample:
  "append_fn (Parts [''id = '', '''']) [7 :: nat] initial =
     Inr (Handle, \<lparr>text = ''id = $1'', sql = ''id = ?'', values = [7]\<rparr>) \<and>
   append_fn Undefined [] \<lparr>text = ''id = $1'', sql = ''id = ?'', values = [7 :: nat]\<rparr> =
     Inr (Standard ''id = ?'' ''id = $1'' ''id = ?'' [7],
          \<lparr>text = ''id = $1'', sql = ''id = ?'', values = [7]\<rparr>) \<and>
   text_field (Standard ''id = ?'' ''id = $1'' ''id = ?'' [7 :: nat]) \<noteq>
     sql_field (Standard ''id = ?'' ''id = $1'' ''id = ?'' [7 :: nat])"
  by code_simp

text \<open>
  C5. Called with the marker \<open>SEQUELIZE_USE_BIND\<close>, the handle returns \<open>{ query, bind }\<close>
  with the \<open>$n\<close>-style rendering as \<open>query\<close> and the bound values as \<open>bind\<close>; \<open>bind\<close> is
  the very list the no-argument call returns as \<open>values\<close>, and nothing is changed.
\<close>

theorem finalize_use_bind:
  "append_fn SEQUELIZE_USE_BIND vals self = Inr (Bind (text self) (values self), self) \<and>
   bind_field (fst (projr (append_fn SEQUELIZE_USE_BIND vals self))) =
     values_field (fst (projr (append_fn Undefined vals' self)))"
  by simp

text \<open>
  C10. With an empty array of fragments \<open>reduce\<close> has no first element and raises
  \<open>TypeError\<close>: the call is not a no-operation. An append with an array returns exactly
  when the array has at least one fragment.
\<close>

theorem append_empty_fragments_throws:
  "append_fn (Parts []) vals self = Inl TypeError \<and>
   ((\<exists>r. append_fn (Parts frags) vals self = Inr r) \<longleftrightarrow> frags \<noteq> [])"
  by (cases frags) (simp_all add: append_parts_def)

subsection \<open>One combined append against several successive ones\<close>

lemma append_parts_nonempty:
  "fs \<noteq> [] \<Longrightarrow> append_parts fs vals self =
     Inr (Handle, self\<lparr>text := text self @ hd fs @ numbered (Suc (length (values self))) (tl fs),
                        sql := sql self @ join fs ''?'',
                        values := values self @ vals\<rparr>)"
  by (cases fs) (simp_all add: append_parts_Cons)

lemma glue_not_Nil: "fs \<noteq> [] \<Longrightarrow> glue fs gs \<noteq> []"
  by (induction fs gs rule: glue.induct) simp_all

lemma glue_Nil2: "glue fs [] = fs"
  by (induction fs "[] :: string list" rule: glue.induct) simp_all

lemma join_glue:
  "fs \<noteq> [] \<Longrightarrow> gs \<noteq> [] \<Longrightarrow> join (glue fs gs) sep = join fs sep @ join gs sep"
proof (induction fs gs rule: glue.induct)
  case (3 f g gs)
  then show ?case by (cases gs) simp_all
next
  case (4 f f' fs gs)
  then show ?case
    using glue_not_Nil [of "f' # fs" gs] by (cases "glue (f' # fs) gs") simp_all
qed simp_all

lemma length_glue:
  "fs \<noteq> [] \<Longrightarrow> gs \<noteq> [] \<Longrightarrow> Suc (length (glue fs gs)) = length fs + length gs"
  by (induction fs gs rule: glue.induct) simp_all

lemma numbered_nonempty:
  "r \<noteq> [] \<Longrightarrow> numbered m r = ''$'' @ number_to_string m @ hd r @ numbered (Suc m) (tl r)"
  by (cases r) simp_all

lemma text_glue:
  "fs \<noteq> [] \<Longrightarrow> gs \<noteq> [] \<Longrightarrow>
     hd (glue fs gs) @ numbered (Suc c) (tl (glue fs gs)) =
     hd fs @ numbered (Suc c) (tl fs) @ hd gs @ numbered (c + length fs) (tl gs)"
proof (induction fs gs arbitrary: c rule: glue.induct)
  case (4 f f' fs gs)
  have ne: "glue (f' # fs) gs \<noteq> []"
    by (rule glue_not_Nil) simp
  show ?case
    using 4(1) [of "Suc c"] 4(3) by (simp add: numbered_nonempty [OF ne])
qed simp_all

text \<open>
  Two calls in a row: the second numbers its placeholders from the value count the first
  has left, which is where the combined call has arrived at that fragment.
\<close>

lemma append_parts_glue:
  assumes "length fs = Suc (length vs)" and "gs \<noteq> []"
  shows "\<exists>s1. append_parts fs vs self = Inr (Handle, s1) \<and>
           append_parts gs ws s1 = append_parts (glue fs gs) (vs @ ws) self"
proof -
  from assms(1) have fs: "fs \<noteq> []" by auto
  have "length (values self) + length fs = Suc (length (values self) + length vs)"
    using assms(1) by simp
  then show ?thesis
    using fs assms(2) text_glue [OF fs assms(2), of "length (values self)"]
    by (simp add: append_parts_nonempty glue_not_Nil join_glue)
qed

lemma combined_not_Nil: "interleaved b \<Longrightarrow> fst (combined (b # bs)) \<noteq> []"
proof -
  obtain fs vs where b: "b = (fs, vs)" by (cases b)
  assume "interleaved b"
  with b have "fs \<noteq> []" by (auto simp: interleaved_def)
  then have "glue fs (fst (combined bs)) \<noteq> []" by (rule glue_not_Nil)
  with b show ?thesis by simp
qed

lemma combined_interleaved:
  "\<forall>b \<in> set bs. interleaved b \<Longrightarrow> bs \<noteq> [] \<Longrightarrow> interleaved (combined bs)"
proof (induction bs)
  case Nil
  then show ?case by simp
next
  case (Cons b bs)
  obtain fs vs where b: "b = (fs, vs)" by (cases b)
  from Cons.prems b have fs: "length fs = Suc (length vs)"
    by (simp add: interleaved_def)
  show ?case
  proof (cases bs)
    case Nil
    with b fs show ?thesis by (simp add: interleaved_def glue_Nil2)
  next
    case (Cons b' bs')
    with Cons.IH Cons.prems have ih: "interleaved (combined bs)" by simp
    then have ne: "fst (combined bs) \<noteq> []" by (auto simp: interleaved_def)
    from fs have "fs \<noteq> []" by auto
    from length_glue [OF this ne] ih fs b show ?thesis
      by (simp add: interleaved_def)
  qed
qed

text \<open>
  C6. For every sequence of one or more append calls in the interleaved form, the one
  call that carries the net fragments (the fragments at the boundaries of the calls
  concatenated) and the net values returns, and leaves the same \<open>sql\<close>, \<open>text\<close> and
  \<open>values\<close> as the calls made one after the other.
\<close>

theorem append_associative:
  assumes "\<forall>b \<in> set (b # bs). interleaved b"
  shows "\<exists>s. append_fn (Parts (fst (combined (b # bs)))) (snd (combined (b # bs))) self
               = Inr (Handle, s) \<and>
             append_all (b # bs) self = Inr s"
  using assms
proof (induction bs arbitrary: b self)
  case Nil
  obtain fs vs where b: "b = (fs, vs)" by (cases b)
  with Nil have "fs \<noteq> []" by (auto simp: interleaved_def)
  with b show ?case
    by (simp add: glue_Nil2 append_parts_nonempty)
next
  case (Cons b' bs)
  obtain fs vs where b: "b = (fs, vs)" by (cases b)
  from Cons.prems b have fs: "length fs = Suc (length vs)"
    by (simp add: interleaved_def)
  from Cons.prems have rest: "\<forall>c \<in> set (b' # bs). interleaved c" by simp
  then have ne: "fst (combined (b' # bs)) \<noteq> []"
    by (simp add: combined_not_Nil)
  obtain s1 where s1: "append_parts fs vs self = Inr (Handle, s1)"
    and glued: "append_parts (fst (combined (b' # bs))) (snd (combined (b' # bs))) s1 =
            append_parts (glue fs (fst (combined (b' # bs))))
              (vs @ snd (combined (b' # bs))) self"
    using append_parts_glue [OF fs ne] by blast
  from Cons.IH [OF rest, of s1] obtain s where
    s: "append_fn (Parts (fst (combined (b' # bs)))) (snd (combined (b' # bs))) s1
          = Inr (Handle, s)"
    and all: "append_all (b' # bs) s1 = Inr s" by blast
  have "append_all (b # b' # bs) self = Inr s"
    using b s1 all by simp
  moreover have
    "append_fn (Parts (fst (combined (b # b' # bs)))) (snd (combined (b # b' # bs))) self
      = Inr (Handle, s)"
    using b glued s by simp
  ultimately show ?case by blast
qed

theorem append_associative_witness:
  "combined [([''SELECT * FROM users''], []), (['' WHERE id = '', ''''], [1 :: nat]),
             (['' AND username = '', ''''], [2])] =
     ([''SELECT * FROM users WHERE id = '', '' AND username = '', ''''], [1, 2]) \<and>
   append_fn (Parts [''SELECT * FROM users WHERE id = '', '' AND username = '', ''''])
       [1, 2 :: nat] initial =
     Inr (Handle, \<lparr>text = ''SELECT * FROM users WHERE id = $1 AND username = $2'',
                   sql = ''SELECT * FROM users WHERE id = ? AND username = ?'',
                   values = [1, 2]\<rparr>) \<and>
   append_all [([''SELECT * FROM users''], []), (['' WHERE id = '', ''''], [1 :: nat]),
               (['' AND username = '', ''''], [2])] initial =
     Inr \<lparr>text = ''SELECT * FROM users WHERE id = $1 AND username = $2'',
          sql = ''SELECT * FROM users WHERE id = ? AND username = ?'',
          values = [1, 2]\<rparr>"
proof -
  let ?bs = "[(['' WHERE id = '', ''''], [1 :: nat]), (['' AND username = '', ''''], [2])]"
  have h: "\<forall>b \<in> set (([''SELECT * FROM users''], []) # ?bs). interleaved b"
    by (simp add: interleaved_def)
  have c: "combined (([''SELECT * FROM users''], []) # ?bs) =
      ([''SELECT * FROM users WHERE id = '', '' AND username = '', ''''], [1, 2])"
    by simp
  have run: "append_all (([''SELECT * FROM users''], []) # ?bs) initial =
     Inr \<lparr>text = ''SELECT * FROM users WHERE id = $1 AND username = $2'',
          sql = ''SELECT * FROM users WHERE id = ? AND username = ?'',
          values = [1, 2]\<rparr>"
    by code_simp
  from append_associative [OF h, of initial] obtain s where
    "append_fn (Parts (fst (combined (([''SELECT * FROM users''], []) # ?bs))))
        (snd (combined (([''SELECT * FROM users''], []) # ?bs))) initial = Inr (Handle, s)"
    and "append_all (([''SELECT * FROM users''], []) # ?bs) initial = Inr s"
    by blast
  with c run show ?thesis by simp
qed

subsection \<open>Placeholders and values stay in step\<close>

























subsection \<open>The handle: growth and identity\<close>

text \<open>
  A call never changes the property \<open>append\<close>, and \<open>SQL\<close> returns a reference to a
  function object whose property \<open>append\<close> is that very reference.
\<close>

lemma call_keeps_append_prop:
  assumes "call r template vals st = Inr (v, st')" and "lookup st r' = Some f"
  shows "\<exists>f'. lookup st' r' = Some f' \<and> append_prop f' = append_prop f"
proof -
  from assms(1) obtain g self' where g: "lookup st r = Some g"
    and st': "st' = st[r := g\<lparr>props := self'\<rparr>]"
    by (auto simp: call_def split: option.splits sum.splits)
  from assms(2) have r': "r' < length st" "f = st ! r'"
    by (auto simp: lookup_def split: if_splits)
  show ?thesis
  proof (cases "r' = r")
    case True
    with g r' st' show ?thesis by (auto simp: lookup_def split: if_splits)
  next
    case False
    with r' st' show ?thesis by (simp add: lookup_def)
  qed
qed

lemma SQL_creates_handle:
  assumes "SQL template vals st = Inr (r, st')"
  shows "r = length st \<and> (\<exists>f. lookup st' r = Some f \<and> append_prop f = r)"
proof -
  let ?st1 = "st @ [\<lparr>props = initial, append_prop = length st\<rparr>]"
  from assms obtain v where r: "r = length st"
    and c: "call (length st) template vals ?st1 = Inr (v, st')"
    by (auto simp: SQL_def Let_def split: sum.splits)
  have "lookup ?st1 (length st) = Some \<lparr>props = initial, append_prop = length st\<rparr>"
    by (simp add: lookup_def)
  from call_keeps_append_prop [OF c this] r show ?thesis by simp
qed

text \<open>
  Construction is one append on the initial properties: the new object is put at the end
  of the store with the properties that append leaves.
\<close>

lemma SQL_is_first_append:
  "SQL template vals st =
     (case append_fn template vals initial of
        Inl e \<Rightarrow> Inl e
      | Inr (_, self') \<Rightarrow>
          Inr (length st, st @ [\<lparr>props = self', append_prop = length st\<rparr>]))"
  by (simp add: SQL_def call_def lookup_def Let_def split: sum.splits)

text \<open>
  C7. For a handle as \<open>SQL\<close> creates it (its property \<open>append\<close> is the handle itself),
  every append that returns, with a raw string or with an array of at least one fragment,
  called on the handle or through its method \<open>append\<close>: returns the reference to the
  very handle that was called, changes no other object, and leaves the former \<open>sql\<close>,
  \<open>text\<close> and \<open>values\<close> as prefixes of the new ones.
\<close>

theorem handle_only_grows:
  assumes "lookup st r = Some f" and "append_prop f = r"
    and "template = Str s \<or> (template = Parts frags \<and> frags \<noteq> [])"
  shows "\<exists>self'. call r template vals st = Inr (Function r, st[r := f\<lparr>props := self'\<rparr>]) \<and>
           call_append r template vals st = call r template vals st \<and>
           prefix (sql (props f)) (sql self') \<and>
           prefix (text (props f)) (text self') \<and>
           prefix (values (props f)) (values self')"
proof -
  have "\<exists>parts. parts \<noteq> [] \<and>
          append_fn template vals (props f) = append_parts parts vals (props f)"
  proof (cases template)
    case (Str s')
    then have "append_fn template vals (props f) = append_parts [s'] vals (props f)"
      by simp
    then show ?thesis by blast
  next
    case (Parts parts)
    with assms(3) show ?thesis by auto
  qed (use assms(3) in auto)
  then obtain parts where ne: "parts \<noteq> []"
    and eq: "append_fn template vals (props f) = append_parts parts vals (props f)"
    by blast
  define self' where "self' = snd (projr (append_parts parts vals (props f)))"
  have run: "append_fn template vals (props f) = Inr (Handle, self')"
    and grow: "prefix (sql (props f)) (sql self')" "prefix (text (props f)) (text self')"
      "prefix (values (props f)) (values self')"
    unfolding eq self'_def by (simp_all add: append_parts_nonempty [OF ne])
  have "call r template vals st = Inr (Function r, st[r := f\<lparr>props := self'\<rparr>])"
    using assms(1) run by (simp add: call_def)
  moreover have "call_append r template vals st = call r template vals st"
    using assms(1,2) by (simp add: call_append_def)
  ultimately show ?thesis using grow by blast
qed

theorem handle_only_grows_witness:
  "SQL (Parts [''SELECT * FROM users'']) [] ([] :: nat store) =
     Inr (0, [\<lparr>props = \<lparr>text = ''SELECT * FROM users'', sql = ''SELECT * FROM users'',
                         values = []\<rparr>, append_prop = 0\<rparr>]) \<and>
   call_append 0 (Parts ['' WHERE id = '', '''']) [1 :: nat]
       [\<lparr>props = \<lparr>text = ''SELECT * FROM users'', sql = ''SELECT * FROM users'',
                   values = []\<rparr>, append_prop = 0\<rparr>] =
     Inr (Function 0,
          [\<lparr>props = \<lparr>text = ''SELECT * FROM users WHERE id = $1'',
                      sql = ''SELECT * FROM users WHERE id = ?'',
                      values = [1]\<rparr>, append_prop = 0\<rparr>])"
proof -
  let ?f = "\<lparr>props = \<lparr>text = ''SELECT * FROM users'', sql = ''SELECT * FROM users'',
                      values = [] :: nat list\<rparr>, append_prop = 0\<rparr>"
  let ?t = "Parts ['' WHERE id = '', '''']"
  have new: "SQL (Parts [''SELECT * FROM users'']) [] ([] :: nat store) = Inr (0, [?f])"
    by code_simp
  have h1: "lookup [?f] 0 = Some ?f"
    by (simp add: lookup_def)
  have h2: "append_prop ?f = 0"
    by simp
  have h3: "?t = Str [] \<or> (?t = Parts ['' WHERE id = '', ''''] \<and> ['' WHERE id = '', ''''] \<noteq> [])"
    by simp
  have run: "call 0 ?t [1] [?f] =
     Inr (Function 0,
          [\<lparr>props = \<lparr>text = ''SELECT * FROM users WHERE id = $1'',
                      sql = ''SELECT * FROM users WHERE id = ?'',
                      values = [1]\<rparr>, append_prop = 0\<rparr>])"
    by code_simp
  from handle_only_grows [OF h1 h2 h3, of "[1]"]
  have "call_append 0 ?t [1] [?f] = call 0 ?t [1] [?f]"
    by blast
  with new run show ?thesis by simp
qed

subsection \<open>Iteration\<close>

lemma collect_In_values:
  "collect (In_values i) this = map Inr (drop i (values this))"
proof (induction "length (values this) - i" arbitrary: i)
  case 0
  then show ?case by (subst collect.simps) simp
next
  case (Suc n)
  then have lt: "i < length (values this)" and n: "n = length (values this) - Suc i"
    by simp_all
  from Suc.hyps(1) [OF n] lt show ?case
    by (subst collect.simps) (simp add: Cons_nth_drop_Suc [symmetric])
qed

lemma collect_Start: "collect Start this = Inl (sql this) # map Inr (values this)"
  by (subst collect.simps) (simp add: collect_In_values)

text \<open>
  C8. Iterating a handle yields its \<open>sql\<close> first and then every bound value in append
  order, and leaves the store as it was: iterating again, with no append in between,
  yields the same sequence.
\<close>

theorem iteration_yields_sql_then_values:
  assumes "lookup st r = Some this"
  shows "spread r st = Inr (Inl (sql (props this)) # map Inr (values (props this)), st) \<and>
         (\<forall>items st'. spread r st = Inr (items, st') \<longrightarrow> spread r st' = Inr (items, st'))"
  using assms by (simp add: spread_def collect_Start)

theorem iteration_yields_sql_then_values_witness:
  "spread 0 [\<lparr>props = \<lparr>text = ''SELECT * FROM users WHERE id = $1'',
                        sql = ''SELECT * FROM users WHERE id = ?'',
                        values = [1 :: nat]\<rparr>, append_prop = 0\<rparr>] =
     Inr ([Inl ''SELECT * FROM users WHERE id = ?'', Inr 1],
          [\<lparr>props = \<lparr>text = ''SELECT * FROM users WHERE id = $1'',
                      sql = ''SELECT * FROM users WHERE id = ?'',
                      values = [1 :: nat]\<rparr>, append_prop = 0\<rparr>])"
proof -
  let ?this = "\<lparr>props = \<lparr>text = ''SELECT * FROM users WHERE id = $1'',
                          sql = ''SELECT * FROM users WHERE id = ?'',
                          values = [1 :: nat]\<rparr>, append_prop = 0\<rparr>"
  have h: "lookup [?this] 0 = Some ?this"
    by (simp add: lookup_def)
  from iteration_yields_sql_then_values [OF h] show ?thesis
    by simp
qed

end
